theory Spec2Isabelle
  imports Complex_Main "HOL-Library.Word"
begin

section \<open>Objects of the host language\<close>

text \<open>
  A JavaScript object (and a \<open>Map\<close>) is the list of its entries in insertion order, with
  distinct keys; a key that is absent reads as \<open>undefined\<close>, which is \<open>None\<close>.
\<close>

definition obj_get :: "('k \<times> 'v) list \<Rightarrow> 'k \<Rightarrow> 'v option" where
  "obj_get obj k = map_of obj k"

text \<open>Assigning a property: an existing key keeps its place, a new key goes last.\<close>

fun obj_set :: "('k \<times> 'v) list \<Rightarrow> 'k \<Rightarrow> 'v \<Rightarrow> ('k \<times> 'v) list" where
  "obj_set [] k v = [(k, v)]"
| "obj_set ((k', v') # kvs) k v =
     (if k' = k then (k, v) # kvs else (k', v') # obj_set kvs k v)"

text \<open>\<open>type CTraderEnv = "demo" | "live"\<close>\<close>

datatype CTraderEnv = Demo | Live

fun env_string :: "CTraderEnv \<Rightarrow> string" where
  "env_string Demo = ''demo''"
| "env_string Live = ''live''"

text \<open>A thrown \<open>Error\<close> with its message.\<close>

datatype error = Error string

section \<open>Strings and numbers of the host language\<close>

text \<open>
  Strings are modelled over ASCII. \<open>trim\<close> removes leading and trailing white space,
  \<open>toUpperCase\<close> and \<open>toLowerCase\<close> map the 26 letters, \<open>includes\<close> is substring search.
\<close>

definition is_space :: "char \<Rightarrow> bool" where
  "is_space c = (c \<in> set [CHR '' '', CHR 0x09, CHR 0x0A, CHR 0x0B, CHR 0x0C, CHR 0x0D])"

definition trim :: "string \<Rightarrow> string" where
  "trim s = rev (dropWhile is_space (rev (dropWhile is_space s)))"

definition upper_char :: "char \<Rightarrow> char" where
  "upper_char c =
     (if 97 \<le> (of_char c :: nat) \<and> (of_char c :: nat) \<le> 122 then char_of (of_char c - 32 :: nat) else c)"


definition toUpperCase :: "string \<Rightarrow> string" where
  "toUpperCase s = map upper_char s"




text \<open>
  \<open>String(n)\<close> for a number holding an integer, and \<open>Number(s)\<close>. The numbers that pass
  through \<open>String\<close> and \<open>Number\<close> in this program are account and symbol ids, integers
  of the protocol; \<open>Number\<close> is modelled on decimal integer literals with an optional
  sign, with \<open>Number("") = 0\<close>, and every other string reads as \<open>NaN\<close>, which is \<open>None\<close>.
\<close>

definition digit_char :: "nat \<Rightarrow> char" where
  "digit_char d = char_of (d + 48)"

function String_nat :: "nat \<Rightarrow> string" where
  "String_nat n =
     (if 10 \<le> n then String_nat (n div 10) @ [digit_char (n mod 10)]
      else [digit_char n])"
  by pat_completeness auto
termination
  by (relation "measure (\<lambda>n. n)") auto

declare String_nat.simps [simp del]

definition String_int :: "int \<Rightarrow> string" where
  "String_int i = (if i < 0 then CHR ''-'' # String_nat (nat (- i)) else String_nat (nat i))"

definition is_digit :: "char \<Rightarrow> bool" where
  "is_digit c = (48 \<le> (of_char c :: nat) \<and> (of_char c :: nat) \<le> 57)"

definition digits_value :: "string \<Rightarrow> nat" where
  "digits_value s = foldl (\<lambda>acc c. acc * 10 + (of_char c - 48)) 0 s"

definition unsigned_literal :: "string \<Rightarrow> int option" where
  "unsigned_literal s =
     (if s \<noteq> [] \<and> list_all is_digit s then Some (int (digits_value s)) else None)"

definition Number_string :: "string \<Rightarrow> int option" where
  "Number_string str =
     (let s = trim str in
      case s of
        [] \<Rightarrow> Some 0
      | c # cs \<Rightarrow>
          if c = CHR ''-'' then map_option uminus (unsigned_literal cs)
          else if c = CHR ''+'' then unsigned_literal cs
          else unsigned_literal s)"

text \<open>
  A JavaScript number where fractions matter (volumes and prices). Arithmetic on finite
  values is exact here; the rounding of IEEE doubles is not modelled.
\<close>

datatype number = Finite rat | NaN | PosInfinity | NegInfinity

section \<open>Frame codec (src/infra/ctrader/protobuf/wire.ts)\<close>

text \<open>
  A \<open>Buffer\<close> is a list of bytes. Lengths and offsets are JavaScript numbers that only
  ever hold non-negative integers here, so they are \<open>nat\<close>; the one place where the
  source narrows a length to 32 bits (\<open>payload.byteLength >>> 0\<close>) is written out as
  \<open>mod 2 ^ 32\<close>.
\<close>

type_synonym byte = "8 word"
type_synonym buffer = "byte list"

definition writeUInt32BE :: "nat \<Rightarrow> buffer" where
  "writeUInt32BE n =
     [of_nat (n div 2 ^ 24), of_nat (n div 2 ^ 16), of_nat (n div 2 ^ 8), of_nat n]"

text \<open>
  \<open>acc.readUInt32BE(offset)\<close>; the source only calls it when four bytes are available
  at \<open>offset\<close> (the loop guard), so the out-of-range error of Node is never reached.
\<close>

definition readUInt32BE :: "buffer \<Rightarrow> nat \<Rightarrow> nat" where
  "readUInt32BE acc offset =
     unat (acc ! offset) * 2 ^ 24 + unat (acc ! (offset + 1)) * 2 ^ 16 +
     unat (acc ! (offset + 2)) * 2 ^ 8 + unat (acc ! (offset + 3))"

text \<open>\<open>acc.subarray(start, end)\<close>, for \<open>start \<le> end\<close>.\<close>

definition subarray :: "buffer \<Rightarrow> nat \<Rightarrow> nat \<Rightarrow> buffer" where
  "subarray acc start end = take (end - start) (drop start acc)"

text \<open>
  \<open>Wire.frame\<close>: a buffer of \<open>4 + len\<close> bytes, the length written at 0 and the payload
  copied to offset 4 (\<open>copy\<close> stops at the end of the target, hence \<open>take len\<close>).
\<close>

definition frame :: "buffer \<Rightarrow> buffer" where
  "frame payload =
     (let len = length payload mod 2 ^ 32
      in writeUInt32BE len @ take len payload)"

text \<open>
  The \<open>while\<close> loop of \<open>Wire.deframe\<close>, with its two local variables \<open>offset\<close> and
  \<open>frames\<close> as arguments; both \<open>break\<close>s and the loop exit return them.
\<close>

function deframe_loop :: "buffer \<Rightarrow> nat \<Rightarrow> buffer list \<Rightarrow> buffer list \<times> nat" where
  "deframe_loop acc offset frames =
     (if length acc - offset \<ge> 4 then
        (let len = readUInt32BE acc offset;
             total = 4 + len
         in if len \<le> 0 then (frames, offset)
            else if length acc - offset < total then (frames, offset)
            else deframe_loop acc (offset + total)
                   (frames @ [subarray acc (offset + 4) (offset + 4 + len)]))
      else (frames, offset))"
  by pat_completeness auto
termination
  by (relation "measure (\<lambda>(acc, offset, frames). length acc - offset)") auto

declare deframe_loop.simps [simp del]

definition deframe :: "buffer \<Rightarrow> buffer list \<times> buffer" where
  "deframe acc =
     (let (frames, offset) = deframe_loop acc 0 []
      in (frames, drop offset acc))"

text \<open>
  The caller's side, \<open>CTraderConnection.onData\<close>: the chunk is appended to the
  accumulator, the accumulator is deframed, and the rest becomes the new accumulator.
  \<open>feed\<close> runs it over a list of chunks and collects the frames in order.
\<close>

definition onData_frames :: "buffer \<Rightarrow> buffer \<Rightarrow> buffer list \<times> buffer" where
  "onData_frames acc chunk = deframe (acc @ chunk)"

fun feed :: "buffer \<Rightarrow> buffer list \<Rightarrow> buffer list \<times> buffer" where
  "feed acc [] = ([], acc)"
| "feed acc (chunk # chunks) =
     (let (frames, rest) = onData_frames acc chunk;
          (frames', rest') = feed rest chunks
      in (frames @ frames', rest'))"

text \<open>
  A reference parser on the remaining bytes, used only in the proofs: it describes
  what the loop computes from a given offset on.
\<close>

function parse :: "buffer \<Rightarrow> buffer list \<times> buffer" where
  "parse s =
     (if length s \<ge> 4 \<and> readUInt32BE s 0 > 0 \<and> length s \<ge> 4 + readUInt32BE s 0
      then (let r = parse (drop (4 + readUInt32BE s 0) s)
            in (take (readUInt32BE s 0) (drop 4 s) # fst r, snd r))
      else ([], s))"
  by pat_completeness auto
termination
  by (relation "measure length") auto

declare parse.simps [simp del]

section \<open>Session store (src/infra/redis/token-store.ts)\<close>

text \<open>
  Values as they live in memory and as they are persisted. A JavaScript object is the
  list of its own properties in insertion order; a property that is absent reads as
  \<open>undefined\<close>, which is \<open>None\<close> here. A number is an integer or a non-finite value
  (\<open>NaN\<close>, \<open>Infinity\<close>), which \<open>JSON.stringify\<close> writes as \<open>null\<close>; JSON itself has
  no such value, so the persisted document has its own type.
\<close>

datatype jsval = Null | Str string | Num int | NonFinite

datatype json = JNull | JStr string | JNum int

type_synonym jsobj = "(string \<times> jsval) list"
type_synonym jsondoc = "(string \<times> json) list"

text \<open>Object spread \<open>{...target, ...src}\<close>: the properties of \<open>src\<close> assigned in order.\<close>

fun obj_spread :: "('k \<times> 'v) list \<Rightarrow> ('k \<times> 'v) list \<Rightarrow> ('k \<times> 'v) list" where
  "obj_spread target [] = target"
| "obj_spread target ((k, v) # kvs) = obj_spread (obj_set target k v) kvs"

fun stringify_val :: "jsval \<Rightarrow> json" where
  "stringify_val Null = JNull"
| "stringify_val (Str s) = JStr s"
| "stringify_val (Num n) = JNum n"
| "stringify_val NonFinite = JNull"

fun parse_val :: "json \<Rightarrow> jsval" where
  "parse_val JNull = Null"
| "parse_val (JStr s) = Str s"
| "parse_val (JNum n) = Num n"

text \<open>
  \<open>JSON.stringify\<close> and \<open>JSON.parse\<close> on such objects, up to the concrete text: the
  document keeps the keys and their order.
\<close>

definition JSON_stringify :: "jsobj \<Rightarrow> jsondoc" where
  "JSON_stringify obj = map (\<lambda>(k, v). (k, stringify_val v)) obj"

definition JSON_parse :: "jsondoc \<Rightarrow> jsobj" where
  "JSON_parse doc = map (\<lambda>(k, v). (k, parse_val v)) doc"

text \<open>
  The patch argument, \<open>Partial<Omit<Session, "userId" | "updatedAt">>\<close>: each field is
  absent (or \<open>undefined\<close>) or holds a value of its declared type.
\<close>

record session_patch =
  p_env :: "CTraderEnv option"
  p_activeAccountId :: "jsval option"
  p_accessTokenEnc :: "string option"
  p_refreshTokenEnc :: "string option"

text \<open>
  The key/value store as the session store uses it: a document and, when \<open>set\<close> was
  given \<open>EX\<close>, its time to live in seconds. Expiry itself is outside the model.
\<close>

type_synonym redis = "string \<rightharpoonup> jsondoc \<times> int option"

definition session_key :: "string \<Rightarrow> string" where
  "session_key userId = ''ctrader:session:'' @ userId"

definition loadSession :: "redis \<Rightarrow> string \<Rightarrow> jsobj option" where
  "loadSession r userId =
     (case r (session_key userId) of
        None \<Rightarrow> None
      | Some (raw, ttl) \<Rightarrow> Some (JSON_parse raw))"

definition saveSession :: "redis \<Rightarrow> string \<Rightarrow> jsobj \<Rightarrow> int option \<Rightarrow> redis" where
  "saveSession r userId next ttlSeconds =
     (let payload = JSON_stringify next
      in case ttlSeconds of
           Some t \<Rightarrow>
             (if t \<noteq> 0 \<and> t > 0 then r(session_key userId \<mapsto> (payload, Some t))
              else r(session_key userId \<mapsto> (payload, None)))
         | None \<Rightarrow> r(session_key userId \<mapsto> (payload, None)))"

text \<open>\<open>...(cur.f !== undefined ? { f: cur.f } : {})\<close>\<close>

definition keep_field :: "jsobj \<Rightarrow> string \<Rightarrow> jsobj" where
  "keep_field cur f = (case obj_get cur f of Some v \<Rightarrow> [(f, v)] | None \<Rightarrow> [])"

text \<open>\<open>...(patch.f !== undefined ? { f: patch.f } : {})\<close>\<close>

definition patch_field :: "string \<Rightarrow> jsval option \<Rightarrow> jsobj" where
  "patch_field f v = (case v of Some x \<Rightarrow> [(f, x)] | None \<Rightarrow> [])"

definition patchSession ::
  "redis \<Rightarrow> int \<Rightarrow> string \<Rightarrow> session_patch \<Rightarrow> int option \<Rightarrow> jsobj \<times> redis" where
  "patchSession r now userId patch ttlSeconds =
     (let cur = (case loadSession r userId of
                   Some s \<Rightarrow> s
                 | None \<Rightarrow> [(''userId'', Str userId), (''updatedAt'', Num now)]);
          next = foldl obj_spread [(''userId'', Str userId), (''updatedAt'', Num now)]
                  [keep_field cur ''env'',
                   keep_field cur ''activeAccountId'',
                   keep_field cur ''accessTokenEnc'',
                   keep_field cur ''refreshTokenEnc'',
                   patch_field ''env'' (map_option (Str \<circ> env_string) (p_env patch)),
                   patch_field ''activeAccountId'' (p_activeAccountId patch),
                   patch_field ''accessTokenEnc'' (map_option Str (p_accessTokenEnc patch)),
                   patch_field ''refreshTokenEnc'' (map_option Str (p_refreshTokenEnc patch))]
      in (next, saveSession r userId next ttlSeconds))"

text \<open>
  What a patch says about one of the four fields by name, and the persisted value of a
  field (\<open>None\<close>: no session, or the key is not in the document).
\<close>

definition patch_get :: "session_patch \<Rightarrow> string \<Rightarrow> jsval option" where
  "patch_get patch f =
     (if f = ''env'' then map_option (Str \<circ> env_string) (p_env patch)
      else if f = ''activeAccountId'' then p_activeAccountId patch
      else if f = ''accessTokenEnc'' then map_option Str (p_accessTokenEnc patch)
      else if f = ''refreshTokenEnc'' then map_option Str (p_refreshTokenEnc patch)
      else None)"

definition persisted :: "redis \<Rightarrow> string \<Rightarrow> string \<Rightarrow> json option" where
  "persisted r userId f =
     (case r (session_key userId) of
        None \<Rightarrow> None
      | Some (raw, ttl) \<Rightarrow> obj_get raw f)"

text \<open>A sequence of \<open>patchSession\<close> calls on one user's session, each with its clock
  reading, patch and time to live.\<close>

fun patchAll :: "redis \<Rightarrow> string \<Rightarrow> (int \<times> session_patch \<times> int option) list \<Rightarrow> redis" where
  "patchAll r userId [] = r"
| "patchAll r userId ((now, patch, ttl) # calls) =
     patchAll (snd (patchSession r now userId patch ttl)) userId calls"

definition session_fields :: "string set" where
  "session_fields = {''env'', ''activeAccountId'', ''accessTokenEnc'', ''refreshTokenEnc''}"

text \<open>Two patches used as concrete inputs below.\<close>

definition demo_patch_env :: session_patch where
  "demo_patch_env = \<lparr>p_env = Some Demo, p_activeAccountId = None,
     p_accessTokenEnc = None, p_refreshTokenEnc = None\<rparr>"

definition demo_patch_tokens :: session_patch where
  "demo_patch_tokens = \<lparr>p_env = None, p_activeAccountId = None,
     p_accessTokenEnc = Some ''QUJD'', p_refreshTokenEnc = None\<rparr>"


section \<open>Enum coercion before encoding (proto-registry: coerceEnums)\<close>














section \<open>Symbol store (src/infra/redis/symbol-store.ts)\<close>

text \<open>
  The key/value store is an external collaborator; the store is handed a client of
  type \<open>any\<close> and probes it for each operation with \<open>typeof ... === "function"\<close>. The
  client is therefore the record of the operations it provides, and the data behind it
  is modelled by the documented behaviour of the Redis commands: a hash is a list of
  fields with distinct names, a key without fields does not exist, \<open>HSET\<close> assigns the
  given fields in order, \<open>DEL\<close> removes the key, \<open>HLEN\<close> counts the fields, \<open>HGET\<close>
  yields \<open>null\<close> for a missing key or field, and \<open>EXPIRE\<close> records a time to live on an
  existing key. Expiry itself is outside the model.
\<close>

record redis_client =
  has_del :: bool
  has_hset :: bool
  has_hSet :: bool
  has_hget :: bool
  has_hGet :: bool
  has_hlen :: bool
  has_hLen :: bool
  has_hgetall :: bool
  has_hGetAll :: bool
  has_expire :: bool

record redis_data =
  hashes :: "string \<rightharpoonup> (string \<times> string) list"
  ttls :: "string \<rightharpoonup> int"

definition redis_del :: "redis_data \<Rightarrow> string \<Rightarrow> redis_data" where
  "redis_del d k = d\<lparr>hashes := (hashes d)(k := None), ttls := (ttls d)(k := None)\<rparr>"

definition redis_hset :: "redis_data \<Rightarrow> string \<Rightarrow> (string \<times> string) list \<Rightarrow> redis_data" where
  "redis_hset d k pairs =
     (let old = (case hashes d k of Some h \<Rightarrow> h | None \<Rightarrow> []);
          new = foldl (\<lambda>h (f, v). obj_set h f v) old pairs
      in if new = [] then d else d\<lparr>hashes := (hashes d)(k \<mapsto> new)\<rparr>)"




definition redis_expire :: "redis_data \<Rightarrow> string \<Rightarrow> int \<Rightarrow> redis_data" where
  "redis_expire d k seconds =
     (if hashes d k = None then d else d\<lparr>ttls := (ttls d)(k \<mapsto> seconds)\<rparr>)"

record symbol_store =
  client :: redis_client
  data :: redis_data
  ttlSeconds :: int

definition symbols_key :: "string \<Rightarrow> CTraderEnv \<Rightarrow> int \<Rightarrow> string" where
  "symbols_key userId env accountId =
     ''ctrader:symbols:'' @ userId @ '':'' @ env_string env @ '':'' @ String_int accountId"

text \<open>\<open>toUtf8\<close> on what \<open>HGET\<close> returns (\<open>null\<close> or a string), then \<open>toNum\<close>.\<close>

definition toUtf8 :: "string option \<Rightarrow> string" where
  "toUtf8 x = (case x of None \<Rightarrow> [] | Some s \<Rightarrow> s)"

definition toNum :: "string option \<Rightarrow> int option" where
  "toNum x =
     (let s = trim (toUtf8 x);
          n = Number_string s
      in case n of
           Some i \<Rightarrow> if i > 0 then Some i else None
         | None \<Rightarrow> None)"




text \<open>
  \<open>replaceAll\<close>. The argument is a \<open>Map<string, number>\<close>: its entries in insertion
  order, with distinct keys. \<open>args\<close> is kept as the list of pairs it alternates.
\<close>

definition replaceAll ::
  "symbol_store \<Rightarrow> string \<Rightarrow> CTraderEnv \<Rightarrow> int \<Rightarrow> (string \<times> int) list \<Rightarrow> symbol_store" where
  "replaceAll st userId env accountId m =
     (let k = symbols_key userId env accountId;
          d1 = (if has_del (client st) then redis_del (data st) k else data st);
          d2 = (if m \<noteq> [] then
                  (let args = map (\<lambda>(sym, n). (sym, String_int n)) m in
                   if has_hset (client st) then redis_hset d1 k args
                   else if has_hSet (client st) then
                     redis_hset d1 k (foldl (\<lambda>obj (f, v). obj_set obj f v) [] args)
                   else d1)
                else d1);
          d3 = (if ttlSeconds st > 0 then
                  (if has_expire (client st) then redis_expire d2 k (ttlSeconds st) else d2)
                else d2)
      in st\<lparr>data := d3\<rparr>)"


text \<open>The fields \<open>replaceAll\<close> writes for a map: each id rendered by \<open>String\<close>.\<close>

definition rendered :: "(string \<times> int) list \<Rightarrow> (string \<times> string) list" where
  "rendered m = map (\<lambda>(sym, n). (sym, String_int n)) m"




section \<open>Gateway (src/infra/ctrader/ctrader-gateway.ts)\<close>

text \<open>
  The gateway awaits its collaborators one call after the other, so it is modelled by
  explicit state passing over a \<open>world\<close>: what the token store returns for the user of
  the request (the session as \<open>Session\<close> types it, and the result of
  \<open>loadAccessToken\<close>, which throws when decryption fails), the symbol store, and the
  upstream connection. \<open>CTraderConnection.send\<close> is seen from its caller: each call is
  logged with its payload key and request object, and settles as the environment decides,
  given here as a function of the number of earlier calls. \<open>w_refreshCalls\<close> only counts the
  invocations of \<open>refreshSymbols\<close>.
\<close>

record session_view =
  s_env :: "CTraderEnv option"
  s_activeAccountId :: "int option"





record new_order =
  o_ctidTraderAccountId :: int
  o_symbolId :: int
  o_orderType :: string
  o_tradeSide :: string
  o_volume :: number
  o_comment :: "string option"
  o_label :: "string option"
  o_limitPrice :: "number option"
  o_stopPrice :: "number option"
  o_stopLoss :: "number option"
  o_takeProfit :: "number option"
  o_stopLossDistance :: "number option"
  o_takeProfitDistance :: "number option"

datatype request =
    AccountAuthReq int string
  | SymbolsListReq int bool
  | NewOrderReq new_order

text \<open>
  Decoded payloads, by what the gateway reads from them: \<open>description\<close> and \<open>message\<close>
  of an error, the array \<open>symbol\<close> of a symbols list (\<open>symbolId\<close> is a string, the
  registry decodes with \<open>longs: String\<close>), and any other payload.
\<close>

record symbol_entry =
  e_symbolName :: "string option"
  e_name :: "string option"
  e_symbolId :: string

datatype decoded =
    ErrorRes "string option" "string option"
  | SymbolsListRes "symbol_entry list"
  | OtherRes

datatype send_result = Rejected error | Resolved string decoded

record world =
  w_session :: "session_view option"
  w_accessToken :: "error + string option"
  w_symbolStore :: symbol_store
  w_upstream :: "nat \<Rightarrow> send_result"
  w_sent :: "(string \<times> request) list"
  w_refreshCalls :: nat







text \<open>The body of the loop that fills the \<open>Map\<close> in \<open>refreshSymbols\<close>.\<close>

definition add_symbol :: "(string \<times> int) list \<Rightarrow> symbol_entry \<Rightarrow> (string \<times> int) list" where
  "add_symbol m s =
     (let name = trim (toUpperCase
                   (case e_symbolName s of
                      Some x \<Rightarrow> x
                    | None \<Rightarrow> (case e_name s of Some y \<Rightarrow> y | None \<Rightarrow> [])));
          sid = Number_string (e_symbolId s)
      in if name \<noteq> [] \<and> sid \<noteq> None then obj_set m name (the sid) else m)"








text \<open>The payload keys sent so far, and how many of them ask for the symbols list.\<close>

definition sent_keys :: "world \<Rightarrow> string set" where
  "sent_keys w = fst ` set (w_sent w)"

definition list_reqs :: "world \<Rightarrow> nat" where
  "list_reqs w = length (filter (\<lambda>e. fst e = ''PROTO_OA_SYMBOLS_LIST_REQ'') (w_sent w))"







section \<open>The gateway on the in-memory symbol cache (an earlier ctrader-gateway.ts)\<close>

text \<open>
  The source also holds an earlier text of the gateway, which keeps the catalog in a
  \<open>SymbolCache\<close> with a time to live instead of the symbol store. \<open>now\<close> is the reading
  of \<open>Date.now()\<close>.
\<close>

record symbol_cache =
  sc_map :: "string \<rightharpoonup> (string \<times> int) list"
  sc_updatedAt :: "string \<rightharpoonup> int"
  sc_ttlMs :: int

definition skey :: "string \<Rightarrow> CTraderEnv \<Rightarrow> int \<Rightarrow> string" where
  "skey userId env accountId = userId @ '':'' @ env_string env @ '':'' @ String_int accountId"

definition cache_get ::
  "symbol_cache \<Rightarrow> int \<Rightarrow> string \<Rightarrow> CTraderEnv \<Rightarrow> int \<Rightarrow> (string \<times> int) list option" where
  "cache_get sc now userId env accountId =
     (let k = skey userId env accountId in
      case sc_updatedAt sc k of
        None \<Rightarrow> None
      | Some t \<Rightarrow>
          if t = 0 then None
          else if now - t > sc_ttlMs sc then None
          else sc_map sc k)"

definition cache_set ::
  "symbol_cache \<Rightarrow> int \<Rightarrow> string \<Rightarrow> CTraderEnv \<Rightarrow> int \<Rightarrow> (string \<times> int) list \<Rightarrow> symbol_cache" where
  "cache_set sc now userId env accountId symbols =
     (let k = skey userId env accountId
      in sc\<lparr>sc_map := (sc_map sc)(k \<mapsto> symbols), sc_updatedAt := (sc_updatedAt sc)(k \<mapsto> now)\<rparr>)"

record cached_gateway =
  g_symbols :: symbol_cache
  g_upstream :: "nat \<Rightarrow> send_result"
  g_sent :: "(string \<times> request) list"
  g_refreshCalls :: nat

definition refreshSymbols_cached ::
  "cached_gateway \<Rightarrow> int \<Rightarrow> string \<Rightarrow> CTraderEnv \<Rightarrow> int
     \<Rightarrow> (error + (string \<times> int) list) \<times> cached_gateway" where
  "refreshSymbols_cached g0 now userId env accountId =
     (let g = g0\<lparr>g_refreshCalls := g_refreshCalls g0 + 1\<rparr>;
          res = g_upstream g (length (g_sent g));
          g1 = g\<lparr>g_sent := g_sent g @
                 [(''PROTO_OA_SYMBOLS_LIST_REQ'', SymbolsListReq accountId False)]\<rparr>
      in case res of
           Rejected e \<Rightarrow> (Inl e, g1)
         | Resolved payloadName d \<Rightarrow>
             (let symbolsArr = (case d of SymbolsListRes xs \<Rightarrow> xs | _ \<Rightarrow> []);
                  m = foldl add_symbol [] symbolsArr
              in (Inr m, g1\<lparr>g_symbols := cache_set (g_symbols g1) now userId env accountId m\<rparr>)))"

definition ensureSymbolId_cached ::
  "cached_gateway \<Rightarrow> int \<Rightarrow> string \<Rightarrow> CTraderEnv \<Rightarrow> int \<Rightarrow> string
     \<Rightarrow> (error + int) \<times> cached_gateway" where
  "ensureSymbolId_cached g now userId env accountId symbol =
     (let wanted = toUpperCase (trim symbol);
          lookup = (\<lambda>cache g'. case obj_get cache wanted of
                      None \<Rightarrow> (Inl (Error (''Symbol not found: '' @ symbol)), g')
                    | Some sid \<Rightarrow> (Inr sid, g'))
      in case cache_get (g_symbols g) now userId env accountId of
           Some cache \<Rightarrow> lookup cache g
         | None \<Rightarrow>
             (case refreshSymbols_cached g now userId env accountId of
                (Inl e, g1) \<Rightarrow> (Inl e, g1)
              | (Inr cache, g1) \<Rightarrow> lookup cache g1))"

section \<open>Quote bus (src/infra/ctrader/quote-bus.ts)\<close>

record quote =
  q_userId :: string
  q_env :: CTraderEnv
  q_accountId :: int
  q_symbolId :: int
  q_bid :: "number option"
  q_ask :: "number option"
  q_timestamp :: "number option"

definition qkey :: "string \<Rightarrow> CTraderEnv \<Rightarrow> int \<Rightarrow> int \<Rightarrow> string" where
  "qkey userId env accountId symbolId =
     userId @ '':'' @ env_string env @ '':'' @ String_int accountId @ '':'' @ String_int symbolId"

text \<open>
  A waiter holds the \<open>resolve\<close> and \<open>reject\<close> functions of the promise created in
  \<open>waitForNext\<close>; the promise is identified by a number, and every call of one of the two
  functions is appended to the log of the bus, so that what has been delivered to whom,
  and in which order, can be read off the state.
\<close>

record waiter =
  wt_promise :: nat
  wt_createdAt :: int

datatype settlement = Resolve quote | Reject error

record quote_bus =
  bus_last :: "string \<rightharpoonup> quote"
  bus_waiters :: "string \<rightharpoonup> waiter list"
  bus_log :: "(nat \<times> settlement) list"

definition maxWaitersPerKey :: nat where
  "maxWaitersPerKey = 50"

definition new_bus :: quote_bus where
  "new_bus = \<lparr>bus_last = Map.empty, bus_waiters = Map.empty, bus_log = []\<rparr>"

definition upsert :: "quote_bus \<Rightarrow> quote \<Rightarrow> quote_bus" where
  "upsert bus q =
     (let key = qkey (q_userId q) (q_env q) (q_accountId q) (q_symbolId q);
          bus1 = bus\<lparr>bus_last := (bus_last bus)(key \<mapsto> q)\<rparr>;
          list = bus_waiters bus1 key
      in if list = None \<or> length (the list) = 0 then bus1
         else bus1\<lparr>bus_waiters := (bus_waiters bus1)(key := None),
                   bus_log := bus_log bus1 @ map (\<lambda>w. (wt_promise w, Resolve q)) (the list)\<rparr>)"

definition getLast :: "quote_bus \<Rightarrow> string \<Rightarrow> CTraderEnv \<Rightarrow> int \<Rightarrow> int \<Rightarrow> quote option" where
  "getLast bus userId env accountId symbolId = bus_last bus (qkey userId env accountId symbolId)"

text \<open>
  The executor of the promise in \<open>waitForNext\<close>, which runs at once: \<open>p\<close> names the new
  promise and \<open>now\<close> is \<open>Date.now()\<close>. The race against the timer settles another
  promise and leaves the waiter in its list, so it is no part of the state.
\<close>

definition waitForNext ::
  "quote_bus \<Rightarrow> nat \<Rightarrow> int \<Rightarrow> string \<Rightarrow> CTraderEnv \<Rightarrow> int \<Rightarrow> int \<Rightarrow> quote_bus" where
  "waitForNext bus p now userId env accountId symbolId =
     (let key = qkey userId env accountId symbolId;
          existing = (case bus_waiters bus key of Some l \<Rightarrow> l | None \<Rightarrow> [])
      in if length existing \<ge> maxWaitersPerKey
         then bus\<lparr>bus_log := bus_log bus @
                 [(p, Reject (Error ''Too many pending quote waiters for this symbol''))]\<rparr>
         else bus\<lparr>bus_waiters := (bus_waiters bus)
                 (key \<mapsto> existing @ [\<lparr>wt_promise = p, wt_createdAt = now\<rparr>])\<rparr>)"

text \<open>The calls made on a bus since its construction.\<close>

datatype bus_call =
    Upsert quote
  | WaitForNext nat int string CTraderEnv int int

fun bus_step :: "quote_bus \<Rightarrow> bus_call \<Rightarrow> quote_bus" where
  "bus_step bus (Upsert q) = upsert bus q"
| "bus_step bus (WaitForNext p now userId env accountId symbolId) =
     waitForNext bus p now userId env accountId symbolId"

definition bus_after :: "bus_call list \<Rightarrow> quote_bus" where
  "bus_after calls = foldl bus_step new_bus calls"

text \<open>The waiters enqueued on a key, none if the key has no list.\<close>

definition waiting :: "quote_bus \<Rightarrow> string \<Rightarrow> waiter list" where
  "waiting bus key = (case bus_waiters bus key of Some l \<Rightarrow> l | None \<Rightarrow> [])"

text \<open>No key holds an empty list of waiters; this holds of every bus built by its calls.\<close>

definition no_empty_lists :: "quote_bus \<Rightarrow> bool" where
  "no_empty_lists bus = (\<forall>k. bus_waiters bus k \<noteq> Some [])"

text \<open>A quote and two waits for it, as concrete inputs below.\<close>

definition eurusd_quote :: quote where
  "eurusd_quote = \<lparr>q_userId = ''u1'', q_env = Demo, q_accountId = 42, q_symbolId = 1,
     q_bid = Some (Finite (10850 / 10000)), q_ask = Some (Finite (10852 / 10000)),
     q_timestamp = None\<rparr>"

definition two_waits :: "bus_call list" where
  "two_waits = [WaitForNext 1 1000 ''u1'' Demo 42 1, WaitForNext 2 1001 ''u1'' Demo 42 1]"

section \<open>Token encryption key (token-crypto: hexToKey32; config/env.ts: decodeKey32)\<close>





text \<open>
  \<open>Buffer.from(v, "base64")\<close> as Node documents it: the standard and the URL-safe
  alphabet are accepted, characters outside them are skipped, decoding ends at the first
  padding character, and every four sextets give three bytes (a rest of two or three
  sextets gives one or two).
\<close>

definition base64_value :: "char \<Rightarrow> nat option" where
  "base64_value c =
     (let n = (of_char c :: nat)
      in if 65 \<le> n \<and> n \<le> 90 then Some (n - 65)
         else if 97 \<le> n \<and> n \<le> 122 then Some (n - 71)
         else if 48 \<le> n \<and> n \<le> 57 then Some (n + 4)
         else if c = CHR ''+'' \<or> c = CHR ''-'' then Some 62
         else if c = CHR ''/'' \<or> c = CHR ''_'' then Some 63
         else None)"

fun sextets_bytes :: "nat list \<Rightarrow> buffer" where
  "sextets_bytes (a # b # c # d # rest) =
     of_nat (a * 4 + b div 16) # of_nat (b mod 16 * 16 + c div 4) # of_nat (c mod 4 * 64 + d)
       # sextets_bytes rest"
| "sextets_bytes [a, b, c] = [of_nat (a * 4 + b div 16), of_nat (b mod 16 * 16 + c div 4)]"
| "sextets_bytes [a, b] = [of_nat (a * 4 + b div 16)]"
| "sextets_bytes s = []"

definition Buffer_from_base64 :: "string \<Rightarrow> buffer" where
  "Buffer_from_base64 v =
     sextets_bytes (List.map_filter base64_value (takeWhile (\<lambda>c. c \<noteq> CHR ''='') v))"







section \<open>Token crypto (token-crypto: TokenCrypto.decrypt)\<close>

text \<open>
  \<open>decrypt\<close> up to the call of the cipher. AES-256-GCM itself is \<open>node:crypto\<close>'s; it
  enters as the function \<open>decipher\<close> from key, iv, tag and ciphertext to the plaintext or
  the error that \<open>final\<close> throws.
\<close>

definition decrypt ::
  "(buffer \<Rightarrow> buffer \<Rightarrow> buffer \<Rightarrow> buffer \<Rightarrow> error + string) \<Rightarrow> buffer \<Rightarrow> string option
     \<Rightarrow> error + string" where
  "decrypt decipher key payloadB64 =
     (let buf = Buffer_from_base64 (trim (case payloadB64 of Some s \<Rightarrow> s | None \<Rightarrow> []))
      in if length buf < 12 + 16 then Inl (Error ''Invalid encrypted payload (too short)'')
         else (let iv = subarray buf 0 12;
                   tag = subarray buf 12 28;
                   ciphertext = drop 28 buf
               in decipher key iv tag ciphertext))"

section \<open>Upstream connection: pending requests (src/infra/ctrader/ctrader-connection.ts)\<close>

text \<open>
  The part of \<open>CTraderConnection\<close> that decides how the promise returned by \<open>send\<close> is
  settled: the counter \<open>msgIdSeq\<close>, the map \<open>pending\<close> (a \<open>Map\<close>, so in insertion order),
  the timers that are armed, and a log of every call of a \<open>resolve\<close> or \<open>reject\<close> function.
  The n-th registration creates promise \<open>n\<close> and timer \<open>n\<close>. The callback of a timer
  closes over the message id, the \<open>reject\<close> function of its promise and the payload key,
  and \<open>clearTimeout\<close> takes the timer out of the armed ones, so that it never fires.
\<close>

text \<open>
  An inbound frame after decoding: the payload name, the \<open>clientMsgId\<close> of the wrapper
  (absent when it is missing or empty, as \<open>decodeProtoMessage\<close> returns it) and the one
  \<open>extractClientMsgId\<close> finds in the payload.
\<close>

record inbound =
  in_payloadName :: string
  in_clientMsgId :: "string option"
  in_payloadClientMsgId :: "string option"

datatype outcome = Delivered inbound | Failed error

record pending_entry =
  pe_promise :: nat
  pe_timeout :: nat

record timer =
  tm_clientMsgId :: string
  tm_promise :: nat
  tm_payloadEnumKey :: string

record conn =
  c_msgIdSeq :: nat
  c_pending :: "(string \<times> pending_entry) list"
  c_timers :: "(nat \<times> timer) list"
  c_settled :: "(nat \<times> outcome) list"
  c_created :: nat



text \<open>\<open>pending.delete(id)\<close> and \<open>clearTimeout(t)\<close>.\<close>

definition obj_delete :: "('k \<times> 'v) list \<Rightarrow> 'k \<Rightarrow> ('k \<times> 'v) list" where
  "obj_delete obj k = filter (\<lambda>e. fst e \<noteq> k) obj"

definition clearTimeout :: "conn \<Rightarrow> nat \<Rightarrow> conn" where
  "clearTimeout c t = c\<lparr>c_timers := obj_delete (c_timers c) t\<rparr>"

definition settle :: "conn \<Rightarrow> nat \<Rightarrow> outcome \<Rightarrow> conn" where
  "settle c p out = c\<lparr>c_settled := c_settled c @ [(p, out)]\<rparr>"












text \<open>The outcomes logged for a promise, and whether its timer is armed.\<close>

definition outcomes :: "conn \<Rightarrow> nat \<Rightarrow> outcome list" where
  "outcomes c p = map snd (filter (\<lambda>e. fst e = p) (c_settled c))"

definition armed :: "conn \<Rightarrow> nat \<Rightarrow> bool" where
  "armed c t = (obj_get (c_timers c) t \<noteq> None)"







section \<open>Properties\<close>

subsection \<open>Frame codec: the loop and the reference parser\<close>

lemma be32_arith:
  fixes n :: nat
  assumes "n < 4294967296"
  shows "n div 16777216 * 16777216 + n div 65536 mod 256 * 65536 +
     n div 256 mod 256 * 256 + n mod 256 = n"
proof -
  define a where "a = n div 256"
  define b where "b = a div 256"
  define c where "c = b div 256"
  have 1: "n = a * 256 + n mod 256" by (simp add: a_def)
  have 2: "a = b * 256 + a mod 256" by (simp add: b_def)
  have 3: "b = c * 256 + b mod 256" by (simp add: c_def)
  have b: "n div 65536 = b" unfolding b_def a_def by (simp add: div_mult2_eq)
  have c: "n div 16777216 = c" unfolding c_def b_def a_def by (simp add: div_mult2_eq)
  show ?thesis unfolding b c a_def[symmetric] using 1 2 3 by linarith
qed

lemma read_write: "n < 2 ^ 32 \<Longrightarrow> readUInt32BE (writeUInt32BE n @ t) 0 = n"
  unfolding readUInt32BE_def writeUInt32BE_def
  using be32_arith[of n]
  by (simp add: unat_of_nat)

lemma length_write [simp]: "length (writeUInt32BE n) = 4"
  by (simp add: writeUInt32BE_def)

lemma loop_parse:
  "offset \<le> length acc \<Longrightarrow>
   deframe_loop acc offset frames =
     (frames @ fst (parse (drop offset acc)), length acc - length (snd (parse (drop offset acc))))"
proof (induction acc offset frames rule: deframe_loop.induct)
  case (1 acc offset frames)
  define len where "len = readUInt32BE acc offset"
  have rd: "length acc - offset \<ge> 4 \<Longrightarrow> readUInt32BE (drop offset acc) 0 = len"
    using 1(2) by (simp add: readUInt32BE_def add.commute len_def)
  show ?case
  proof (cases "length acc - offset \<ge> 4 \<and> len > 0 \<and> length acc - offset \<ge> 4 + len")
    case True
    have P: "parse (drop offset acc) =
       (take len (drop (offset + 4) acc) # fst (parse (drop (offset + (4 + len)) acc)),
        snd (parse (drop (offset + (4 + len)) acc)))"
      using True rd by (subst parse.simps) (simp add: Let_def add.commute)
    have L: "deframe_loop acc offset frames =
       deframe_loop acc (offset + (4 + len)) (frames @ [subarray acc (offset + 4) (offset + 4 + len)])"
      using True by (subst deframe_loop.simps) (simp add: Let_def len_def)
    have le: "offset + (4 + len) \<le> length acc" using True 1(2) by linarith
    have IH: "deframe_loop acc (offset + (4 + len)) (frames @ [subarray acc (offset + 4) (offset + 4 + len)]) =
       ((frames @ [subarray acc (offset + 4) (offset + 4 + len)]) @ fst (parse (drop (offset + (4 + len)) acc)),
         length acc - length (snd (parse (drop (offset + (4 + len)) acc))))"
      using 1(1)[of len "4 + len"] True le by (simp add: len_def)
    show ?thesis
      unfolding L IH P by (simp add: subarray_def)
  next
    case False
    have P: "parse (drop offset acc) = ([], drop offset acc)"
      using False rd by (subst parse.simps) auto
    have L: "deframe_loop acc offset frames = (frames, offset)"
      using False by (subst deframe_loop.simps) (auto simp: Let_def len_def)
    show ?thesis unfolding P L using 1(2) by simp
  qed
qed

lemma parse_suffix: "\<exists>k \<le> length s. snd (parse s) = drop k s"
proof (induction s rule: parse.induct)
  case (1 s)
  show ?case
  proof (cases "length s \<ge> 4 \<and> readUInt32BE s 0 > 0 \<and> length s \<ge> 4 + readUInt32BE s 0")
    case True
    from 1[OF True] obtain k where k: "k \<le> length (drop (4 + readUInt32BE s 0) s)"
      "snd (parse (drop (4 + readUInt32BE s 0) s)) = drop k (drop (4 + readUInt32BE s 0) s)"
      by blast
    have "snd (parse s) = drop (k + (4 + readUInt32BE s 0)) s"
      using True k(2) by (subst parse.simps) (simp add: Let_def add.commute)
    moreover have "k + (4 + readUInt32BE s 0) \<le> length s" using k(1) True by (simp, arith)
    ultimately show ?thesis by blast
  next
    case False
    then have "snd (parse s) = drop 0 s" by (subst parse.simps) auto
    then show ?thesis by blast
  qed
qed

lemma deframe_parse: "deframe acc = parse acc"
proof -
  obtain k where k: "k \<le> length acc" "snd (parse acc) = drop k acc"
    using parse_suffix by blast
  then have "drop (length acc - length (snd (parse acc))) acc = snd (parse acc)" by simp
  then show ?thesis by (simp add: deframe_def loop_parse)
qed

text \<open>appending input after an exhausted parse\<close>
lemma parse_append:
  "parse (a @ c) = (fst (parse a) @ fst (parse (snd (parse a) @ c)), snd (parse (snd (parse a) @ c)))"
proof (induction a rule: parse.induct)
  case (1 s)
  let ?n = "readUInt32BE s 0"
  show ?case
  proof (cases "length s \<ge> 4 \<and> ?n > 0 \<and> length s \<ge> 4 + ?n")
    case True
    have l4: "4 \<le> length s" using True by simp
    have rd: "readUInt32BE (s @ c) 0 = ?n"
      using l4 by (auto simp add: readUInt32BE_def nth_append)
    have A: "parse (s @ c) = (take ?n (drop 4 s) # fst (parse (drop (4 + ?n) s @ c)), snd (parse (drop (4 + ?n) s @ c)))"
      using True rd by (subst parse.simps) (simp add: Let_def)
    have B: "parse s = (take ?n (drop 4 s) # fst (parse (drop (4 + ?n) s)), snd (parse (drop (4 + ?n) s)))"
      using True by (subst parse.simps) (simp add: Let_def)
    show ?thesis unfolding A using 1[OF True] by (simp add: B)
  next
    case False
    then have "parse s = ([], s)" by (subst parse.simps) auto
    then show ?thesis by simp
  qed
qed


lemma parse_idem: "parse (snd (parse s)) = ([], snd (parse s))"
proof (induction s rule: parse.induct)
  case (1 s)
  show ?case
  proof (cases "length s \<ge> 4 \<and> readUInt32BE s 0 > 0 \<and> length s \<ge> 4 + readUInt32BE s 0")
    case True
    have "snd (parse s) = snd (parse (drop (4 + readUInt32BE s 0) s))"
      using True by (subst parse.simps) (simp add: Let_def)
    then show ?thesis using 1[OF True] by simp
  next
    case False
    then have P: "parse s = ([], s)" by (subst parse.simps) auto
    then show ?thesis by simp
  qed
qed

lemma feed_eq: "parse acc = ([], acc) \<Longrightarrow> feed acc chunks = parse (acc @ concat chunks)"
proof (induction chunks arbitrary: acc)
  case Nil
  then show ?case by simp
next
  case (Cons c cs)
  have r: "parse (snd (parse (acc @ c))) = ([], snd (parse (acc @ c)))" by (rule parse_idem)
  show ?case
    using Cons.IH[OF r] parse_append[of "acc @ c" "concat cs"]
    by (simp add: onData_frames_def deframe_parse split_beta Let_def)
qed

lemma parse_frame:
  assumes "0 < length p" "length p < 2 ^ 32"
  shows "parse (frame p @ t) = (p # fst (parse t), snd (parse t))"
proof -
  have f: "frame p = writeUInt32BE (length p) @ p" using assms by (simp add: frame_def)
  have rd: "readUInt32BE (frame p @ t) 0 = length p"
    unfolding f using read_write[OF assms(2)] by simp
  show ?thesis
    using assms rd by (subst parse.simps) (simp add: f Let_def)
qed

lemma parse_frames:
  assumes "\<forall>p \<in> set ps. 0 < length p \<and> length p < 2 ^ 32"
  shows "parse (concat (map frame ps) @ t) = (ps @ fst (parse t), snd (parse t))"
  using assms by (induction ps) (simp_all add: parse_frame)

lemma parse_nil: "parse [] = ([], [])" by (subst parse.simps) simp

lemma parse_zero: "parse (writeUInt32BE 0 @ t) = ([], writeUInt32BE 0 @ t)"
proof -
  have "readUInt32BE (writeUInt32BE 0 @ t) 0 = 0" using read_write[of 0 t] by simp
  then show ?thesis by (subst parse.simps) simp
qed

text \<open>
  Claim C2 (amended). For payloads that are non-empty and shorter than \<open>2 ^ 32\<close> bytes:
  however the concatenation of their frames is cut into chunks, feeding the chunks through
  \<open>onData\<close>'s accumulate-and-deframe step yields exactly the payloads, in order, and an
  empty rest. If the stream continues with a frame whose declared length is zero, parsing
  stops there and the rest is that length prefix and everything after it.
\<close>

theorem wire_roundtrip:
  assumes "\<forall>p \<in> set ps. 0 < length p \<and> length p < 2 ^ 32"
  shows "(concat chunks = concat (map frame ps) \<longrightarrow> feed [] chunks = (ps, [])) \<and>
         (concat chunks = concat (map frame ps) @ writeUInt32BE 0 @ t \<longrightarrow>
            feed [] chunks = (ps, writeUInt32BE 0 @ t))"
proof (intro conjI impI)
  assume c: "concat chunks = concat (map frame ps)"
  have "feed [] chunks = parse ([] @ concat chunks)"
    by (rule feed_eq) (simp add: parse_nil)
  also have "\<dots> = parse (concat (map frame ps) @ [])" using c by simp
  also have "\<dots> = (ps, [])" unfolding parse_frames[OF assms] by (simp add: parse_nil)
  finally show "feed [] chunks = (ps, [])" .
next
  assume c: "concat chunks = concat (map frame ps) @ writeUInt32BE 0 @ t"
  have "feed [] chunks = parse ([] @ concat chunks)"
    by (rule feed_eq) (simp add: parse_nil)
  also have "\<dots> = parse (concat (map frame ps) @ (writeUInt32BE 0 @ t))" using c by simp
  also have "\<dots> = (ps, writeUInt32BE 0 @ t)"
    unfolding parse_frames[OF assms] by (simp add: parse_zero)
  finally show "feed [] chunks = (ps, writeUInt32BE 0 @ t)" .
qed

text \<open>Two payloads cut into three chunks, and a stream ending in a zero-length frame.\<close>

theorem wire_roundtrip_witness:
  "0 < length [1, 2 :: byte] \<and> length [1, 2 :: byte] < 2 ^ 32 \<and>
   0 < length [3 :: byte] \<and> length [3 :: byte] < 2 ^ 32 \<and>
   concat [[0, 0], [0, 2, 1], [2, 0, 0, 0, 1, 3 :: byte]] = concat (map frame [[1, 2], [3]]) \<and>
   feed [] [[0, 0], [0, 2, 1], [2, 0, 0, 0, 1, 3 :: byte]] = ([[1, 2], [3]], []) \<and>
   concat [[0, 0, 0, 2, 1, 2, 0], [0, 0, 0, 9 :: byte]] =
     concat (map frame [[1, 2]]) @ writeUInt32BE 0 @ [9] \<and>
   feed [] [[0, 0, 0, 2, 1, 2, 0], [0, 0, 0, 9 :: byte]] = ([[1, 2]], writeUInt32BE 0 @ [9])"
proof -
  have h: "\<forall>p \<in> set [[1, 2], [3 :: byte]]. 0 < length p \<and> length p < 2 ^ 32" by simp
  have h': "\<forall>p \<in> set [[1, 2 :: byte]]. 0 < length p \<and> length p < 2 ^ 32" by simp
  have c: "concat [[0, 0], [0, 2, 1], [2, 0, 0, 0, 1, 3 :: byte]] = concat (map frame [[1, 2], [3]])"
    by (simp add: frame_def writeUInt32BE_def)
  have c': "concat [[0, 0, 0, 2, 1, 2, 0], [0, 0, 0, 9 :: byte]] =
     concat (map frame [[1, 2]]) @ writeUInt32BE 0 @ [9]"
    by (simp add: frame_def writeUInt32BE_def)
  show ?thesis
    using c c' wire_roundtrip[OF h, of "[[0, 0], [0, 2, 1], [2, 0, 0, 0, 1, 3]]"]
      wire_roundtrip[OF h', of "[[0, 0, 0, 2, 1, 2, 0], [0, 0, 0, 9]]" "[9]"]
    by simp
qed

text \<open>
  Claim C2 as stated (every sequence of payloads) fails on an empty payload: its frame
  is the zero length prefix, at which \<open>deframe\<close> stops, so neither it nor any later
  payload is delivered.
\<close>

theorem wire_empty_payload_counterexample:
  "concat [frame [] @ frame [7]] = concat (map frame [[], [7]]) \<and>
   feed [] [frame [] @ frame [7]] = ([], [0, 0, 0, 0, 0, 0, 0, 1, 7]) \<and>
   fst (feed [] [frame [] @ frame [7]]) \<noteq> [[], [7]]"
proof -
  have f: "frame [] @ frame [7] = [0, 0, 0, 0, 0, 0, 0, 1, 7]"
    by (simp add: frame_def writeUInt32BE_def)
  have p: "parse [0, 0, 0, 0, 0, 0, 0, 1, 7] = ([], [0, 0, 0, 0, 0, 0, 0, 1, 7])"
    by (subst parse.simps) (simp add: readUInt32BE_def)
  show ?thesis
    by (simp add: f onData_frames_def deframe_parse p)
qed

subsection \<open>Session store\<close>

lemma map_of_obj_set: "map_of (obj_set obj k v) = (map_of obj)(k \<mapsto> v)"
  by (induction obj) (auto simp: fun_eq_iff)

lemma obj_get_set [simp]: "obj_get (obj_set t k v) g = (if g = k then Some v else obj_get t g)"
  by (simp add: obj_get_def map_of_obj_set)

lemma obj_get_spread_nil [simp]: "obj_get (obj_spread t []) g = obj_get t g"
  by simp

lemma obj_get_spread_single [simp]:
  "obj_get (obj_spread t [(k, v)]) g = (if g = k then Some v else obj_get t g)"
  by simp

lemma obj_get_keep [simp]:
  "obj_get (obj_spread t (keep_field cur f)) g =
     (if g = f \<and> obj_get cur f \<noteq> None then obj_get cur f else obj_get t g)"
  by (auto simp: keep_field_def split: option.splits)

lemma obj_get_patch [simp]:
  "obj_get (obj_spread t (patch_field f v)) g =
     (if g = f \<and> v \<noteq> None then v else obj_get t g)"
  by (auto simp: patch_field_def split: option.splits)

lemma stringify_parse [simp]: "stringify_val (parse_val j) = j"
  by (cases j) simp_all

lemma obj_get_stringify: "obj_get (JSON_stringify obj) f = map_option stringify_val (obj_get obj f)"
  by (induction obj) (auto simp: JSON_stringify_def obj_get_def)

lemma obj_get_parse: "obj_get (JSON_parse doc) f = map_option parse_val (obj_get doc f)"
  by (induction doc) (auto simp: JSON_parse_def obj_get_def)

lemma persisted_save:
  "persisted (saveSession r userId next ttl) userId f = map_option stringify_val (obj_get next f)"
  by (auto simp: persisted_def saveSession_def Let_def obj_get_stringify split: option.splits)


lemma obj_get_base:
  "obj_get [(''userId'', a), (''updatedAt'', b)] ''env'' = None"
  "obj_get [(''userId'', a), (''updatedAt'', b)] ''activeAccountId'' = None"
  "obj_get [(''userId'', a), (''updatedAt'', b)] ''accessTokenEnc'' = None"
  "obj_get [(''userId'', a), (''updatedAt'', b)] ''refreshTokenEnc'' = None"
  by (simp_all add: obj_get_def)

lemma patchSession_fst:
  assumes "f \<in> session_fields"
  shows "obj_get (fst (patchSession r now userId patch ttl)) f =
     (case patch_get patch f of
        Some v \<Rightarrow> Some v
      | None \<Rightarrow> (case loadSession r userId of None \<Rightarrow> None | Some cur \<Rightarrow> obj_get cur f))"
proof -
  consider "f = ''env''" | "f = ''activeAccountId''" | "f = ''accessTokenEnc''"
    | "f = ''refreshTokenEnc''"
    using assms by (auto simp: session_fields_def)
  then show ?thesis
  proof cases
    case 1
    then show ?thesis
      by (simp add: patchSession_def Let_def patch_get_def obj_get_base split: option.splits)
  next
    case 2
    then show ?thesis
      by (simp add: patchSession_def Let_def patch_get_def obj_get_base split: option.splits)
  next
    case 3
    then show ?thesis
      by (simp add: patchSession_def Let_def patch_get_def obj_get_base split: option.splits)
  next
    case 4
    then show ?thesis
      by (simp add: patchSession_def Let_def patch_get_def obj_get_base split: option.splits)
  qed
qed

lemma patchSession_next:
  assumes "f \<in> session_fields" and "patch_get patch f = None"
  shows "obj_get (fst (patchSession r now userId patch ttl)) f =
         (case loadSession r userId of None \<Rightarrow> None | Some cur \<Rightarrow> obj_get cur f)"
  by (simp add: patchSession_fst[OF assms(1)] assms(2))

lemma patchSession_snd:
  "snd (patchSession r now userId patch ttl) =
     saveSession r userId (fst (patchSession r now userId patch ttl)) ttl"
  by (simp add: patchSession_def Let_def)

lemma patchSession_frame:
  assumes "f \<in> session_fields" and "patch_get patch f = None"
  shows "persisted (snd (patchSession r now userId patch ttl)) userId f = persisted r userId f"
proof -
  have "persisted (snd (patchSession r now userId patch ttl)) userId f =
        map_option stringify_val (obj_get (fst (patchSession r now userId patch ttl)) f)"
    by (simp only: patchSession_snd persisted_save)
  also have "\<dots> = persisted r userId f"
    unfolding patchSession_next[OF assms]
    by (auto simp: loadSession_def persisted_def obj_get_parse option.map_comp comp_def
        option.map_ident split: option.splits)
  finally show ?thesis .
qed

lemma patchAll_frame:
  assumes "f \<in> session_fields"
    and "\<forall>c \<in> set calls. patch_get (fst (snd c)) f = None"
  shows "persisted (patchAll r userId calls) userId f = persisted r userId f"
  using assms(2)
proof (induction calls arbitrary: r)
  case Nil
  then show ?case by simp
next
  case (Cons c calls)
  obtain now patch ttl where c: "c = (now, patch, ttl)" by (cases c)
  have "patch_get patch f = None" using Cons.prems c by simp
  then show ?case
    using Cons c patchSession_frame[OF assms(1)] by simp
qed

text \<open>
  Claim C5. For each of the fields \<open>env\<close>, \<open>activeAccountId\<close>, \<open>accessTokenEnc\<close> and
  \<open>refreshTokenEnc\<close>: a \<open>patchSession\<close> call whose patch does not contain the field leaves
  the persisted value of the field as it was (present with the same value, or absent),
  from whatever store the earlier calls have produced; and over any sequence of calls none
  of which contains the field, a field that was absent at the start is still absent from
  the persisted JSON at the end, its key is not there, so in particular it is not
  \<open>null\<close>.
\<close>

theorem patchSession_preserves_unset:
  assumes "f \<in> session_fields"
  shows "(patch_get patch f = None \<longrightarrow>
            persisted (snd (patchSession r now userId patch ttl)) userId f = persisted r userId f) \<and>
         ((\<forall>c \<in> set calls. patch_get (fst (snd c)) f = None) \<and> persisted r userId f = None \<longrightarrow>
            persisted (patchAll r userId calls) userId f = None \<and>
            persisted (patchAll r userId calls) userId f \<noteq> Some JNull)"
  using patchSession_frame[OF assms] patchAll_frame[OF assms] by simp

text \<open>
  A session created by a patch of \<open>env\<close>, then patched with a token: \<open>env\<close> keeps its
  value and \<open>activeAccountId\<close>, in neither patch, stays absent.
\<close>

lemma demo_eval:
  "persisted (snd (patchSession Map.empty 1 ''u1'' demo_patch_env None)) ''u1'' ''env'' = Some (JStr ''demo'')"
  by (simp add: persisted_save patchSession_snd patchSession_fst session_fields_def
      patch_get_def demo_patch_env_def)

theorem patchSession_preserves_unset_witness:
  "''env'' \<in> session_fields \<and> patch_get demo_patch_tokens ''env'' = None \<and>
   persisted (snd (patchSession (snd (patchSession Map.empty 1 ''u1'' demo_patch_env None))
      2 ''u1'' demo_patch_tokens (Some 3600))) ''u1'' ''env'' = Some (JStr ''demo'') \<and>
   ''activeAccountId'' \<in> session_fields \<and>
   patch_get demo_patch_env ''activeAccountId'' = None \<and>
   patch_get demo_patch_tokens ''activeAccountId'' = None \<and>
   persisted Map.empty ''u1'' ''activeAccountId'' = None \<and>
   persisted (patchAll Map.empty ''u1'' [(1, demo_patch_env, None), (2, demo_patch_tokens, Some 3600)])
      ''u1'' ''activeAccountId'' = None"
proof -
  have f1: "''env'' \<in> session_fields" and f2: "''activeAccountId'' \<in> session_fields"
    by (simp_all add: session_fields_def)
  have p: "patch_get demo_patch_tokens ''env'' = None"
    "patch_get demo_patch_env ''activeAccountId'' = None"
    "patch_get demo_patch_tokens ''activeAccountId'' = None"
    by (simp_all add: patch_get_def demo_patch_tokens_def demo_patch_env_def)
  have e: "persisted Map.empty ''u1'' ''activeAccountId'' = None"
    by (simp add: persisted_def)
  show ?thesis
    using f1 f2 p e demo_eval
      patchSession_preserves_unset[OF f1, of demo_patch_tokens
        "snd (patchSession Map.empty 1 ''u1'' demo_patch_env None)" 2 "''u1''" "Some 3600" "[]"]
      patchSession_preserves_unset[OF f2, of demo_patch_env Map.empty 1 "''u1''" None
        "[(1, demo_patch_env, None), (2, demo_patch_tokens, Some 3600)]"]
    by simp
qed

subsection \<open>Enum coercion\<close>









subsection \<open>Decimal rendering and reading\<close>














lemma toNum_None [simp]: "toNum None = None"
  by (simp add: toNum_def toUtf8_def Number_string_def trim_def)

subsection \<open>Symbol store\<close>



lemma rendered_keys [simp]: "map fst (rendered m) = map fst m"
  by (induction m) (auto simp: rendered_def)

lemma rendered_nil [simp]: "(rendered m = []) = (m = [])"
  by (simp add: rendered_def)


lemma replaceAll_client [simp]: "client (replaceAll st userId env accountId m) = client st"
  by (simp add: replaceAll_def Let_def)










subsection \<open>Gateway: what each step sends and counts\<close>








lemma sent_keys_upd [simp]:
  "sent_keys (w\<lparr>w_symbolStore := s\<rparr>) = sent_keys w"
  "sent_keys (w\<lparr>w_refreshCalls := n\<rparr>) = sent_keys w"
  "list_reqs (w\<lparr>w_symbolStore := s\<rparr>) = list_reqs w"
  "list_reqs (w\<lparr>w_refreshCalls := n\<rparr>) = list_reqs w"
  by (simp_all add: sent_keys_def list_reqs_def)







subsection \<open>Gateway: placing an order\<close>













subsection \<open>The gateway on the in-memory symbol cache\<close>

lemma refreshSymbols_cached_counts:
  "g_refreshCalls (snd (refreshSymbols_cached g now u e a)) = g_refreshCalls g + 1"
  by (simp add: refreshSymbols_cached_def Let_def split: send_result.splits)

lemma ensureSymbolId_cached_once:
  "g_refreshCalls (snd (ensureSymbolId_cached g now u e a s)) \<le> g_refreshCalls g + 1"
proof (cases "cache_get (g_symbols g) now u e a")
  case None
  have "snd (ensureSymbolId_cached g now u e a s) = snd (refreshSymbols_cached g now u e a)"
    using None
    by (simp add: ensureSymbolId_cached_def Let_def split: prod.splits sum.splits option.splits)
  then show ?thesis by (simp add: refreshSymbols_cached_counts)
next
  case (Some cache)
  then have "snd (ensureSymbolId_cached g now u e a s) = g"
    by (simp add: ensureSymbolId_cached_def Let_def split: option.splits)
  then show ?thesis by simp
qed

lemma ensureSymbolId_cached_fresh:
  "cache_get (g_symbols g) now u e a = Some cache \<Longrightarrow>
   ensureSymbolId_cached g now u e a s =
     (case obj_get cache (toUpperCase (trim s)) of
        None \<Rightarrow> (Inl (Error (''Symbol not found: '' @ s)), g)
      | Some sid \<Rightarrow> (Inr sid, g))"
  by (simp add: ensureSymbolId_cached_def Let_def del: String.char.inject list.inject)

subsection \<open>Quote bus\<close>

lemma upsert_keeps: "no_empty_lists bus \<Longrightarrow> no_empty_lists (upsert bus q)"
  by (auto simp: no_empty_lists_def upsert_def Let_def)

lemma waitForNext_keeps:
  "no_empty_lists bus \<Longrightarrow> no_empty_lists (waitForNext bus p now u e a s)"
  by (auto simp: no_empty_lists_def waitForNext_def Let_def)

lemma fold_keeps: "no_empty_lists bus \<Longrightarrow> no_empty_lists (foldl bus_step bus calls)"
proof (induction calls arbitrary: bus)
  case Nil
  then show ?case by simp
next
  case (Cons c calls)
  then show ?case by (cases c) (simp_all add: upsert_keeps waitForNext_keeps)
qed

lemma bus_after_no_empty: "no_empty_lists (bus_after calls)"
  unfolding bus_after_def by (rule fold_keeps) (simp add: no_empty_lists_def new_bus_def)

text \<open>
  Claim C4. On a bus in any state its calls can have produced, after \<open>upsert(q)\<close>:
  \<open>getLast\<close> on the user, environment, account and symbol of \<open>q\<close> returns \<open>q\<close>; every
  waiter that was enqueued on that key has had its \<open>resolve\<close> called with \<open>q\<close>, these
  calls, in the order of enqueueing, being all that \<open>upsert\<close> added to the log; and the
  key has no waiter list any more.
\<close>

theorem upsert_delivers:
  fixes calls :: "bus_call list" and q :: quote
  defines "bus \<equiv> bus_after calls"
  defines "key \<equiv> qkey (q_userId q) (q_env q) (q_accountId q) (q_symbolId q)"
  defines "bus' \<equiv> upsert bus q"
  shows "getLast bus' (q_userId q) (q_env q) (q_accountId q) (q_symbolId q) = Some q \<and>
         (\<forall>w \<in> set (waiting bus key). (wt_promise w, Resolve q) \<in> set (bus_log bus')) \<and>
         bus_log bus' = bus_log bus @ map (\<lambda>w. (wt_promise w, Resolve q)) (waiting bus key) \<and>
         bus_waiters bus' key = None"
proof -
  have ne: "bus_waiters bus key \<noteq> Some []"
    using bus_after_no_empty[of calls] by (simp add: no_empty_lists_def bus_def)
  show ?thesis
  proof (cases "bus_waiters bus key")
    case None
    then show ?thesis
      unfolding bus'_def key_def
      by (simp add: upsert_def getLast_def waiting_def Let_def key_def[symmetric])
  next
    case (Some l)
    then have "l \<noteq> []" using ne by auto
    then show ?thesis
      using Some unfolding bus'_def key_def
      by (auto simp add: upsert_def getLast_def waiting_def Let_def key_def[symmetric])
  qed
qed

text \<open>Two waiters on one key, then a quote for it.\<close>

lemma two_waits_waiting:
  "waiting (bus_after two_waits) (qkey ''u1'' Demo 42 1) =
     [\<lparr>wt_promise = 1, wt_createdAt = 1000\<rparr>, \<lparr>wt_promise = 2, wt_createdAt = 1001\<rparr>]"
  "bus_log (bus_after two_waits) = []"
  "q_userId eurusd_quote = ''u1''" "q_env eurusd_quote = Demo"
  "q_accountId eurusd_quote = 42" "q_symbolId eurusd_quote = 1"
  by code_simp+

theorem upsert_delivers_witness:
  "getLast (upsert (bus_after two_waits) eurusd_quote) ''u1'' Demo 42 1 = Some eurusd_quote \<and>
   bus_log (upsert (bus_after two_waits) eurusd_quote) =
     [(1, Resolve eurusd_quote), (2, Resolve eurusd_quote)] \<and>
   bus_waiters (upsert (bus_after two_waits) eurusd_quote) (qkey ''u1'' Demo 42 1) = None"
  using upsert_delivers[of two_waits eurusd_quote] two_waits_waiting
  by simp

subsection \<open>Token encryption key\<close>







subsection \<open>Token crypto: the length guard\<close>

lemma decrypt_too_short:
  "length (Buffer_from_base64 (trim payload)) < 28 \<Longrightarrow>
   decrypt decipher key (Some payload) = Inl (Error ''Invalid encrypted payload (too short)'')"
  by (simp add: decrypt_def Let_def del: String.char.inject list.inject)

subsection \<open>Upstream connection: one settlement per request\<close>

lemma obj_get_delete [simp]:
  "obj_get (obj_delete l t) h = (if h = t then None else obj_get l h)"
  by (induction l) (auto simp: obj_get_def obj_delete_def)

lemma set_obj_delete: "set (obj_delete l k) \<subseteq> set l"
  by (auto simp: obj_delete_def)

lemma armed_clear [simp]: "armed (clearTimeout c t) h = (armed c h \<and> h \<noteq> t)"
  by (auto simp: armed_def clearTimeout_def)

lemma outcomes_settle [simp]:
  "outcomes (settle c p out) h = outcomes c h @ (if h = p then [out] else [])"
  by (simp add: outcomes_def settle_def)

lemma armed_settle [simp]: "armed (settle c p out) h = armed c h"
  by (simp add: armed_def settle_def)

lemma outcomes_clear [simp]: "outcomes (clearTimeout c t) h = outcomes c h"
  by (simp add: outcomes_def clearTimeout_def)

lemma fields_settle [simp]:
  "c_pending (settle c p out) = c_pending c" "c_created (settle c p out) = c_created c"
  "c_timers (settle c p out) = c_timers c" "c_msgIdSeq (settle c p out) = c_msgIdSeq c"
  "c_settled (settle c p out) = c_settled c @ [(p, out)]"
  by (simp_all add: settle_def)

lemma fields_clear [simp]:
  "c_pending (clearTimeout c t) = c_pending c" "c_created (clearTimeout c t) = c_created c"
  "c_settled (clearTimeout c t) = c_settled c" "c_msgIdSeq (clearTimeout c t) = c_msgIdSeq c"
  "c_timers (clearTimeout c t) = obj_delete (c_timers c) t"
  by (simp_all add: clearTimeout_def)

lemma armed_pending_upd [simp]: "armed (c\<lparr>c_pending := x\<rparr>) h = armed c h"
  by (simp add: armed_def)

lemma outcomes_pending_upd [simp]: "outcomes (c\<lparr>c_pending := x\<rparr>) h = outcomes c h"
  by (simp add: outcomes_def)































end
